theory Spec2Isabelle
  imports Main "HOL-Library.Word"
begin

section \<open>The device store (store/store.go)\<close>

text \<open>
  \<^verbatim>\<open>Device\<close> is the struct of store.go. The fields that hold key material, the protobuf
  account and the sub-stores are interfaces or types declared outside this file; the record
  keeps the plain fields and the identity \<^verbatim>\<open>ID *types.JID\<close>, a pointer that may be nil
  (\<open>None\<close>). The type of a JID is a parameter.
\<close>

record 'jid Device =
  RegistrationID :: "32 word"
  ID :: "'jid option"
  Platform :: string
  BusinessName :: string
  PushName :: string
  Initialized :: bool

text \<open>
  \<^verbatim>\<open>DeviceContainer\<close> is an interface; \<^verbatim>\<open>DeleteDevice(store *Device) error\<close> receives a pointer
  to the device, so an implementation returns its error (\<open>None\<close> is \<^verbatim>\<open>nil\<close>) together with the
  device as it leaves it. The method is a parameter of \<open>Delete\<close>.

  \<^verbatim>\<open>
  func (device *Device) Delete() error {
      err := device.Container.DeleteDevice(device)
      if err != nil {
          return err
      }
      device.ID = nil
      return nil
  }
  \<close>
\<close>

definition Delete ::
  "('jid Device \<Rightarrow> 'err option \<times> 'jid Device) \<Rightarrow> 'jid Device \<Rightarrow> 'err option \<times> 'jid Device"
where
  "Delete DeleteDevice device =
     (case DeleteDevice device of
        (Some err, device') \<Rightarrow> (Some err, device')
      | (None, device') \<Rightarrow> (None, device'\<lparr>ID := None\<rparr>))"

section \<open>The client, as far as the QR channel uses it\<close>

text \<open>
  The QR channel calls four methods of \<^verbatim>\<open>Client\<close> that are declared in other files:
  \<^verbatim>\<open>IsConnected\<close>, \<^verbatim>\<open>AddEventHandler\<close>, \<^verbatim>\<open>RemoveEventHandler\<close> and \<^verbatim>\<open>Disconnect\<close>, and it
  reads \<^verbatim>\<open>cli.Store.ID\<close>. The record holds what these need: the store, the connection
  state, the ids of the registered handlers with the last id handed out, and a log of the
  \<^verbatim>\<open>RemoveEventHandler\<close> and \<^verbatim>\<open>Disconnect\<close> calls received.
\<close>

record 'jid Client =
  Store :: "'jid Device"
  connected :: bool
  eventHandlers :: "32 word list"
  lastHandlerID :: "32 word"
  removeCalls :: "32 word list"
  disconnectCalls :: nat

text \<open>Modelled from the spec: \<^verbatim>\<open>IsConnected() -> bool\<close>, the connectivity query of the Client.\<close>

definition IsConnected :: "'jid Client \<Rightarrow> bool" where
  "IsConnected cli = connected cli"

text \<open>
  Modelled from the spec: \<^verbatim>\<open>Subscribe(handler) -> token\<close>. The bus is not in the sources;
  registering hands out the next id and appends it to the registered handlers.
\<close>

definition AddEventHandler :: "'jid Client \<Rightarrow> 32 word \<times> 'jid Client" where
  "AddEventHandler cli =
     (let nextID = lastHandlerID cli + 1
      in (nextID, cli\<lparr>eventHandlers := eventHandlers cli @ [nextID], lastHandlerID := nextID\<rparr>))"

text \<open>
  Modelled from the spec: \<^verbatim>\<open>Unsubscribe(token)\<close>. The handler with that id is removed from
  the registered handlers; the call is logged.
\<close>

definition RemoveEventHandler :: "32 word \<Rightarrow> 'jid Client \<Rightarrow> 'jid Client" where
  "RemoveEventHandler hid cli =
     cli\<lparr>eventHandlers := filter (\<lambda>h. h \<noteq> hid) (eventHandlers cli),
         removeCalls := removeCalls cli @ [hid]\<rparr>"

text \<open>
  Modelled from the spec: \<^verbatim>\<open>Disconnect()\<close>, fire-and-forget. The request is counted; what
  the transport does with it is outside the sources.
\<close>

definition Disconnect :: "'jid Client \<Rightarrow> 'jid Client" where
  "Disconnect cli = cli\<lparr>disconnectCalls := Suc (disconnectCalls cli)\<rparr>"

section \<open>Channels\<close>

text \<open>
  A Go channel: the queued values (oldest first), the capacity given to \<^verbatim>\<open>make\<close> and
  whether \<^verbatim>\<open>close\<close> has been called on it.
\<close>

record 'a chan =
  chan_buf :: "'a list"
  chan_cap :: nat
  chan_closed :: bool

definition make_chan :: "nat \<Rightarrow> 'a chan" where
  "make_chan n = \<lparr>chan_buf = [], chan_cap = n, chan_closed = False\<rparr>"

section \<open>The QR channel\<close>

type_synonym QRChannelItem = string

definition QRChannelSuccess :: QRChannelItem where
  "QRChannelSuccess = ''success''"

definition QRChannelTimeout :: QRChannelItem where
  "QRChannelTimeout = ''timeout''"

definition QRChannelErrUnexpectedEvent :: QRChannelItem where
  "QRChannelErrUnexpectedEvent = ''err-unexpected-state''"

definition IsQR :: "QRChannelItem \<Rightarrow> bool" where
  "IsQR qrci \<longleftrightarrow>
     qrci \<noteq> QRChannelSuccess \<and> qrci \<noteq> QRChannelTimeout \<and> qrci \<noteq> QRChannelErrUnexpectedEvent"

text \<open>
  The struct \<^verbatim>\<open>qrChannel\<close>. Its \<^verbatim>\<open>cli\<close> pointer is the client of the configuration below, its
  logger only prints, and its embedded mutex is never locked.
\<close>

record qrChannel =
  handlerID :: "32 word"
  closed :: "32 word"
  output_ch :: "QRChannelItem chan"
  stopQRs :: "unit chan"

datatype qr_error = ErrQRAlreadyConnected | ErrQRStoreContainsID

text \<open>
  \<^verbatim>\<open>GetQRChannel\<close> returns the pair of Go, (channel, error), with \<open>None\<close> for \<^verbatim>\<open>nil\<close>, and
  beside it the client as the call leaves it and the relay object it has built, if any
  (in Go the relay lives on in the closure handed to \<^verbatim>\<open>AddEventHandler\<close>).
\<close>

definition GetQRChannel ::
  "'jid Client \<Rightarrow> (QRChannelItem chan option \<times> qr_error option) \<times> 'jid Client \<times> qrChannel option"
where
  "GetQRChannel cli =
     (if IsConnected cli then ((None, Some ErrQRAlreadyConnected), cli, None)
      else if ID (Store cli) \<noteq> None then ((None, Some ErrQRStoreContainsID), cli, None)
      else
        let ch = make_chan 7;
            qrc = \<lparr>handlerID = 0, closed = 0, output_ch = ch, stopQRs = make_chan 0\<rparr>;
            (hid, cli') = AddEventHandler cli
        in ((Some ch, None), cli', Some (qrc\<lparr>handlerID := hid\<rparr>)))"

section \<open>Channel and atomic operations\<close>

datatype panic = SendOnClosedChannel | CloseOfClosedChannel

text \<open>
  \<^verbatim>\<open>ch <- v\<close>. A send on a closed channel panics, with or without a \<^verbatim>\<open>select\<close> around it.
  On an open channel the value is queued while the buffer has room; otherwise the send
  cannot proceed: a plain send waits, a \<^verbatim>\<open>select\<close> with a \<^verbatim>\<open>default\<close> takes the default.
  (A receiver can only be waiting when the buffer is empty, and then there is room.)
\<close>

datatype 'a send_result = Sent "'a chan" | SendPanics | SendBlocks

definition chan_send :: "'a \<Rightarrow> 'a chan \<Rightarrow> 'a send_result" where
  "chan_send v ch =
     (if chan_closed ch then SendPanics
      else if length (chan_buf ch) < chan_cap ch then Sent (ch\<lparr>chan_buf := chan_buf ch @ [v]\<rparr>)
      else SendBlocks)"

text \<open>\<^verbatim>\<open>close(ch)\<close>: closing a closed channel panics (\<open>None\<close>).\<close>

definition chan_close :: "'a chan \<Rightarrow> 'a chan option" where
  "chan_close ch = (if chan_closed ch then None else Some (ch\<lparr>chan_closed := True\<rparr>))"

text \<open>
  \<^verbatim>\<open><-ch\<close>: the oldest queued value if there is one; on an empty channel the receive
  returns at once if the channel is closed and waits otherwise.
\<close>

datatype 'a recv_result = Received 'a "'a chan" | RecvClosed | RecvBlocks

definition chan_recv :: "'a chan \<Rightarrow> 'a recv_result" where
  "chan_recv ch =
     (case chan_buf ch of
        v # vs \<Rightarrow> Received v (ch\<lparr>chan_buf := vs\<rparr>)
      | [] \<Rightarrow> if chan_closed ch then RecvClosed else RecvBlocks)"

text \<open>
  \<^verbatim>\<open>atomic.CompareAndSwapUint32(addr, old, new)\<close> on the value at the address: whether the
  swap happened, and the value afterwards.
\<close>

definition CompareAndSwapUint32 :: "32 word \<Rightarrow> 32 word \<Rightarrow> 32 word \<Rightarrow> bool \<times> 32 word" where
  "CompareAndSwapUint32 v old new = (if v = old then (True, new) else (False, v))"

section \<open>Events and the type switch of handleEvent\<close>

text \<open>
  The event types that \<^verbatim>\<open>handleEvent\<close> tells apart; \<open>OtherEvent\<close> stands for every other
  dynamic type of \<^verbatim>\<open>rawEvt\<close>. \<^verbatim>\<open>events.QR\<close> carries \<^verbatim>\<open>Codes []string\<close> and
  \<^verbatim>\<open>Timeout time.Duration\<close> (an int64).
\<close>

datatype event =
    QR "string list" "64 word"
  | PairSuccess
  | Disconnected
  | Connected
  | ConnectFailure
  | OtherEvent

text \<open>
  Lines 77 to 91: what the type switch decides. A QR event starts \<^verbatim>\<open>go qrc.emitQRs(evt)\<close>
  and returns; three cases set \<^verbatim>\<open>outputType\<close> and go on to line 92; the default returns.
\<close>

datatype switched = StartEmitter "string list" "64 word" | Terminal QRChannelItem | Ignored

fun handleEvent_switch :: "event \<Rightarrow> switched" where
  "handleEvent_switch (QR codes timeout) = StartEmitter codes timeout"
| "handleEvent_switch PairSuccess = Terminal QRChannelSuccess"
| "handleEvent_switch Disconnected = Terminal QRChannelTimeout"
| "handleEvent_switch Connected = Terminal QRChannelErrUnexpectedEvent"
| "handleEvent_switch ConnectFailure = Terminal QRChannelErrUnexpectedEvent"
| "handleEvent_switch OtherEvent = Ignored"

section \<open>Goroutines as interleaved steps\<close>

text \<open>
  \<^verbatim>\<open>handleEvent\<close> runs on the goroutine of whoever dispatches the event, \<^verbatim>\<open>emitQRs\<close> on a
  goroutine of its own, and the caller of \<^verbatim>\<open>GetQRChannel\<close> reads the channel on a third.
  They share the relay's \<^verbatim>\<open>closed\<close> word (accessed atomically), its two channels and the
  client. Each goroutine is a program counter; one step performs one operation on the
  shared state, together with the local computation that leads to the next one.

  The points of \<^verbatim>\<open>handleEvent\<close> after the type switch, with \<^verbatim>\<open>outputType\<close> where it is
  still needed:
\<close>

datatype hpc =
    H_close_stop QRChannelItem   \<comment> \<open>line 92: \<^verbatim>\<open>close(qrc.stopQRs)\<close>\<close>
  | H_cas QRChannelItem          \<comment> \<open>line 93: \<^verbatim>\<open>atomic.CompareAndSwapUint32(&qrc.closed, 0, 1)\<close>\<close>
  | H_send QRChannelItem         \<comment> \<open>line 95: \<^verbatim>\<open>qrc.output <- outputType\<close>\<close>
  | H_close_output               \<comment> \<open>line 96: \<^verbatim>\<open>close(qrc.output)\<close>\<close>
  | H_remove                     \<comment> \<open>line 100: \<^verbatim>\<open>qrc.cli.RemoveEventHandler(qrc.handlerID)\<close>\<close>
  | H_return

text \<open>The points of \<^verbatim>\<open>emitQRs\<close>, with the codes still in \<^verbatim>\<open>evt.Codes\<close> and \<^verbatim>\<open>evt.Timeout\<close>:\<close>

datatype epc =
    E_loop "string list" "64 word"   \<comment> \<open>line 48: head of the loop\<close>
  | E_send_timeout                   \<comment> \<open>line 51: \<^verbatim>\<open>qrc.output <- QRChannelTimeout\<close>\<close>
  | E_close_output                   \<comment> \<open>line 52: \<^verbatim>\<open>close(qrc.output)\<close>\<close>
  | E_disconnect                     \<comment> \<open>line 53: \<^verbatim>\<open>qrc.cli.Disconnect()\<close>\<close>
  | E_wait "string list" "64 word"   \<comment> \<open>line 67: the \<^verbatim>\<open>select\<close> on the timer and \<^verbatim>\<open>qrc.stopQRs\<close>\<close>
  | E_return

record 'jid config =
  qrc :: qrChannel
  cli :: "'jid Client"
  handlers :: "hpc list"
  emitters :: "epc list"
  received :: "QRChannelItem list"
  panicked :: "panic option"

text \<open>
  One step of a \<^verbatim>\<open>handleEvent\<close> invocation: its next program counter and the configuration.
  A send that cannot proceed leaves both as they are (the goroutine waits).
\<close>

fun handle_step :: "hpc \<Rightarrow> 'jid config \<Rightarrow> hpc \<times> 'jid config" where
  "handle_step (H_close_stop outputType) c =
     (case chan_close (stopQRs (qrc c)) of
        None \<Rightarrow> (H_close_stop outputType, c\<lparr>panicked := Some CloseOfClosedChannel\<rparr>)
      | Some ch \<Rightarrow> (H_cas outputType, c\<lparr>qrc := (qrc c)\<lparr>stopQRs := ch\<rparr>\<rparr>))"
| "handle_step (H_cas outputType) c =
     (case CompareAndSwapUint32 (closed (qrc c)) 0 1 of
        (swapped, v) \<Rightarrow>
          (if swapped then H_send outputType else H_remove, c\<lparr>qrc := (qrc c)\<lparr>closed := v\<rparr>\<rparr>))"
| "handle_step (H_send outputType) c =
     (case chan_send outputType (output_ch (qrc c)) of
        Sent ch \<Rightarrow> (H_close_output, c\<lparr>qrc := (qrc c)\<lparr>output_ch := ch\<rparr>\<rparr>)
      | SendPanics \<Rightarrow> (H_send outputType, c\<lparr>panicked := Some SendOnClosedChannel\<rparr>)
      | SendBlocks \<Rightarrow> (H_send outputType, c))"
| "handle_step H_close_output c =
     (case chan_close (output_ch (qrc c)) of
        None \<Rightarrow> (H_close_output, c\<lparr>panicked := Some CloseOfClosedChannel\<rparr>)
      | Some ch \<Rightarrow> (H_remove, c\<lparr>qrc := (qrc c)\<lparr>output_ch := ch\<rparr>\<rparr>))"
| "handle_step H_remove c =
     (H_return, c\<lparr>cli := RemoveEventHandler (handlerID (qrc c)) (cli c)\<rparr>)"
| "handle_step H_return c = (H_return, c)"

text \<open>
  One step of an \<^verbatim>\<open>emitQRs\<close> goroutine. At the head of the loop an empty \<^verbatim>\<open>evt.Codes\<close> leads
  to the compare-and-swap of line 49; otherwise the first code is taken off and offered to
  the channel in the \<^verbatim>\<open>select\<close> of line 61, whose default returns. In the \<^verbatim>\<open>select\<close> of
  line 67 this step is the case \<^verbatim>\<open><-qrc.stopQRs\<close>; the timer's case is \<open>emit_elapse\<close>.
\<close>

fun emit_step :: "epc \<Rightarrow> 'jid config \<Rightarrow> epc \<times> 'jid config" where
  "emit_step (E_loop [] timeout) c =
     (case CompareAndSwapUint32 (closed (qrc c)) 0 1 of
        (swapped, v) \<Rightarrow>
          (if swapped then E_send_timeout else E_return, c\<lparr>qrc := (qrc c)\<lparr>closed := v\<rparr>\<rparr>))"
| "emit_step (E_loop (nextCode # codes) timeout) c =
     (case chan_send nextCode (output_ch (qrc c)) of
        Sent ch \<Rightarrow> (E_wait codes timeout, c\<lparr>qrc := (qrc c)\<lparr>output_ch := ch\<rparr>\<rparr>)
      | SendPanics \<Rightarrow> (E_loop (nextCode # codes) timeout, c\<lparr>panicked := Some SendOnClosedChannel\<rparr>)
      | SendBlocks \<Rightarrow> (E_return, c))"
| "emit_step E_send_timeout c =
     (case chan_send QRChannelTimeout (output_ch (qrc c)) of
        Sent ch \<Rightarrow> (E_close_output, c\<lparr>qrc := (qrc c)\<lparr>output_ch := ch\<rparr>\<rparr>)
      | SendPanics \<Rightarrow> (E_send_timeout, c\<lparr>panicked := Some SendOnClosedChannel\<rparr>)
      | SendBlocks \<Rightarrow> (E_send_timeout, c))"
| "emit_step E_close_output c =
     (case chan_close (output_ch (qrc c)) of
        None \<Rightarrow> (E_close_output, c\<lparr>panicked := Some CloseOfClosedChannel\<rparr>)
      | Some ch \<Rightarrow> (E_disconnect, c\<lparr>qrc := (qrc c)\<lparr>output_ch := ch\<rparr>\<rparr>))"
| "emit_step E_disconnect c = (E_return, c\<lparr>cli := Disconnect (cli c)\<rparr>)"
| "emit_step (E_wait codes timeout) c =
     (case chan_recv (stopQRs (qrc c)) of
        RecvBlocks \<Rightarrow> (E_wait codes timeout, c)
      | _ \<Rightarrow> (E_return, c))"
| "emit_step E_return c = (E_return, c)"

text \<open>The case \<^verbatim>\<open><-time.After(evt.Timeout)\<close> of the second \<^verbatim>\<open>select\<close>: back to the head of the loop.\<close>

fun emit_elapse :: "epc \<Rightarrow> epc" where
  "emit_elapse (E_wait codes timeout) = E_loop codes timeout"
| "emit_elapse pc = pc"

text \<open>
  A call of \<^verbatim>\<open>handleEvent\<close> begins with the type switch: a QR event starts an emitter, a
  terminal one leaves an invocation at line 92, any other event returns at once.

  What can happen next. \<open>Dispatch\<close> is the bus calling \<^verbatim>\<open>handleEvent\<close> with an event.
  Modelled from the spec: the bus, which is not in the sources, dispatches events to
  registered handlers; so the call is made only while the relay's handler id is among the
  registered ones, and several calls may be under way at once. \<open>Handle i\<close> and \<open>Emit i\<close> are
  one step of the \<open>i\<close>-th invocation or emitter, \<open>Elapse i\<close> is the timer of the \<open>i\<close>-th
  emitter firing and its \<^verbatim>\<open>select\<close> taking that case, \<open>Receive\<close> is the reader of the channel
  taking a value. A step that names no goroutine, or one that waits or has returned,
  changes nothing. A panic ends the program: no step changes a panicked configuration.
\<close>

datatype action = Dispatch event | Handle nat | Emit nat | Elapse nat | Receive

definition handleEvent_call :: "event \<Rightarrow> 'jid config \<Rightarrow> 'jid config" where
  "handleEvent_call evt c =
     (case handleEvent_switch evt of
        StartEmitter codes timeout \<Rightarrow> c\<lparr>emitters := emitters c @ [E_loop codes timeout]\<rparr>
      | Terminal outputType \<Rightarrow> c\<lparr>handlers := handlers c @ [H_close_stop outputType]\<rparr>
      | Ignored \<Rightarrow> c)"

fun step :: "action \<Rightarrow> 'jid config \<Rightarrow> 'jid config" where
  "step (Dispatch evt) c =
     (if panicked c \<noteq> None \<or> handlerID (qrc c) \<notin> set (eventHandlers (cli c)) then c
      else handleEvent_call evt c)"
| "step (Handle i) c =
     (if panicked c \<noteq> None \<or> length (handlers c) \<le> i then c
      else case handle_step (handlers c ! i) c of
        (pc, c') \<Rightarrow> c'\<lparr>handlers := (handlers c)[i := pc]\<rparr>)"
| "step (Emit i) c =
     (if panicked c \<noteq> None \<or> length (emitters c) \<le> i then c
      else case emit_step (emitters c ! i) c of
        (pc, c') \<Rightarrow> c'\<lparr>emitters := (emitters c)[i := pc]\<rparr>)"
| "step (Elapse i) c =
     (if panicked c \<noteq> None \<or> length (emitters c) \<le> i then c
      else c\<lparr>emitters := (emitters c)[i := emit_elapse (emitters c ! i)]\<rparr>)"
| "step Receive c =
     (if panicked c \<noteq> None then c
      else case chan_recv (output_ch (qrc c)) of
        Received v ch \<Rightarrow> c\<lparr>qrc := (qrc c)\<lparr>output_ch := ch\<rparr>, received := received c @ [v]\<rparr>
      | _ \<Rightarrow> c)"

fun exec :: "action list \<Rightarrow> 'jid config \<Rightarrow> 'jid config" where
  "exec [] c = c"
| "exec (a # as) c = exec as (step a c)"

text \<open>
  \<^verbatim>\<open>handleEvent\<close> as one call that nothing interleaves with: the type switch and the five
  steps of lines 92 to 100, taken by the invocation the call has added.
\<close>

definition handleEvent :: "event \<Rightarrow> 'jid config \<Rightarrow> 'jid config" where
  "handleEvent evt c = exec (replicate 5 (Handle (length (handlers c)))) (handleEvent_call evt c)"

text \<open>
  The emitter \<open>i\<close> running through its codes while the reader keeps up and no stop signal
  comes: each code is sent, received, and its timer fires; then the four steps of lines 49
  to 53, the reader taking the last value in between.
\<close>

fun drained_run :: "nat \<Rightarrow> string list \<Rightarrow> action list" where
  "drained_run i [] = [Emit i, Emit i, Receive, Emit i, Emit i]"
| "drained_run i (code # codes) = [Emit i, Receive, Elapse i] @ drained_run i codes"

text \<open>
  Everything written to the channel so far, in order: what the reader has taken and what
  is still queued.
\<close>

definition written :: "'jid config \<Rightarrow> QRChannelItem list" where
  "written c = received c @ chan_buf (output_ch (qrc c))"

text \<open>The configuration right after a successful \<^verbatim>\<open>GetQRChannel\<close> on a client.\<close>

definition relay_of :: "'jid Client \<Rightarrow> 'jid config option" where
  "relay_of cli0 =
     (case GetQRChannel cli0 of
        (_, cli', Some q) \<Rightarrow>
          Some \<lparr>qrc = q, cli = cli', handlers = [], emitters = [], received = [], panicked = None\<rparr>
      | (_, _, None) \<Rightarrow> None)"

text \<open>A client that is not connected, with an empty store and no handlers.\<close>

definition unpaired_client :: "unit Client" where
  "unpaired_client =
     \<lparr>Store = \<lparr>RegistrationID = 0, ID = None, Platform = [], BusinessName = [], PushName = [],
               Initialized = False\<rparr>,
      connected = False, eventHandlers = [], lastHandlerID = 0, removeCalls = [],
      disconnectCalls = 0\<rparr>"

definition relay0 :: "unit config" where
  "relay0 =
     \<lparr>qrc = \<lparr>handlerID = 1, closed = 0, output_ch = make_chan 7, stopQRs = make_chan 0\<rparr>,
      cli = unpaired_client\<lparr>eventHandlers := [1], lastHandlerID := 1\<rparr>,
      handlers = [], emitters = [], received = [], panicked = None\<rparr>"

text \<open>
  A relay that has not terminated and can take one more value: no panic, the closed word
  still 0, both channels open, room in the output buffer.
\<close>

definition open_relay :: "'jid config \<Rightarrow> bool" where
  "open_relay c \<longleftrightarrow>
     panicked c = None \<and> closed (qrc c) = 0 \<and> \<not> chan_closed (stopQRs (qrc c)) \<and>
     \<not> chan_closed (output_ch (qrc c)) \<and>
     length (chan_buf (output_ch (qrc c))) < chan_cap (output_ch (qrc c))"

text \<open>
  The configuration \<open>c\<close> after one more \<^verbatim>\<open>handleEvent\<close> call has signalled the stop, won the
  closed word, written \<open>t\<close>, closed the output and removed the handler.
\<close>

abbreviation terminated :: "QRChannelItem \<Rightarrow> 'jid config \<Rightarrow> 'jid config" where
  "terminated t c \<equiv>
     c\<lparr>qrc := (qrc c)\<lparr>closed := 1,
                      output_ch := (output_ch (qrc c))
                        \<lparr>chan_buf := chan_buf (output_ch (qrc c)) @ [t], chan_closed := True\<rparr>,
                      stopQRs := (stopQRs (qrc c))\<lparr>chan_closed := True\<rparr>\<rparr>,
       cli := RemoveEventHandler (handlerID (qrc c)) (cli c),
       handlers := handlers c @ [H_return]\<rparr>"

text \<open>
  Runs from \<open>relay0\<close>, the relay that \<^verbatim>\<open>GetQRChannel\<close> returns on \<open>unpaired_client\<close>.

  \<open>late_code\<close>: a QR event with two codes; the emitter sends the first, the reader takes it
  and the timer fires, so the emitter is back at the head of its loop. A \<^verbatim>\<open>PairSuccess\<close>
  event arrives; its handler closes \<^verbatim>\<open>stopQRs\<close>, wins the closed word and sends "success";
  the emitter then executes the \<^verbatim>\<open>select\<close> of line 61 and the channel, still open with
  room, takes the second code; the handler closes the channel and removes itself; the
  emitter finds \<^verbatim>\<open>stopQRs\<close> closed and returns; the reader takes what is queued.
\<close>

definition late_code :: "action list" where
  "late_code =
     [Dispatch (QR [''1@ABC'', ''2@DEF''] 20), Emit 0, Receive, Elapse 0,
      Dispatch PairSuccess, Handle 0, Handle 0, Handle 0,
      Emit 0,
      Handle 0, Handle 0, Emit 0, Receive, Receive, Receive]"

text \<open>
  \<open>two_terminal_events\<close>: the bus calls the handler with \<^verbatim>\<open>PairSuccess\<close> and with
  \<^verbatim>\<open>Disconnected\<close> before either call has removed the handler; the first call runs to its
  end. The second call has then its first step, line 92, to take.
\<close>

definition two_terminal_events :: "action list" where
  "two_terminal_events = [Dispatch PairSuccess, Dispatch Disconnected] @ replicate 5 (Handle 0)"

text \<open>
  \<open>codes_run_out\<close>: a QR event with one code and no other event; the reader keeps up and
  the emitter runs until it returns.
\<close>

definition codes_run_out :: "action list" where
  "codes_run_out = Dispatch (QR [''1@ABC''] 20) # drained_run 0 [''1@ABC'']"

text \<open>A relay whose output buffer holds seven codes, with an emitter about to send an eighth.\<close>

definition relay_full :: "unit config" where
  "relay_full =
     relay0\<lparr>qrc := (qrc relay0)\<lparr>output_ch := (output_ch (qrc relay0))
                 \<lparr>chan_buf := [''1@A'', ''2@B'', ''3@C'', ''4@D'', ''5@E'', ''6@F'', ''7@G'']\<rparr>\<rparr>,
            emitters := [E_loop [''8@H'', ''9@I''] 20]\<rparr>"

section \<open>Who may write a terminal value\<close>

text \<open>
  The goroutines that have won the compare-and-swap of line 49 or 93 and have not yet
  closed the output channel: they are at the send or at the close that follows it.
\<close>

fun h_holds :: "hpc \<Rightarrow> bool" where
  "h_holds (H_send t) = True"
| "h_holds H_close_output = True"
| "h_holds pc = False"

fun e_holds :: "epc \<Rightarrow> bool" where
  "e_holds E_send_timeout = True"
| "e_holds E_close_output = True"
| "e_holds pc = False"

text \<open>Among them, those that have sent their terminal value already.\<close>

fun h_sent :: "hpc \<Rightarrow> bool" where
  "h_sent H_close_output = True"
| "h_sent pc = False"

fun e_sent :: "epc \<Rightarrow> bool" where
  "e_sent E_close_output = True"
| "e_sent pc = False"

definition count_where :: "('a \<Rightarrow> bool) \<Rightarrow> 'a list \<Rightarrow> nat" where
  "count_where P xs = length (filter P xs)"

definition holders :: "'jid config \<Rightarrow> nat" where
  "holders c = count_where h_holds (handlers c) + count_where e_holds (emitters c)"

text \<open>
  While the closed word is 0 nobody holds the channel and it is open; once it is 1, either
  exactly one goroutine holds the channel, which is open, or nobody does and it is closed.
\<close>

definition single_closer :: "'jid config \<Rightarrow> bool" where
  "single_closer c \<longleftrightarrow>
     (if closed (qrc c) = 0 then holders c = 0 \<and> \<not> chan_closed (output_ch (qrc c))
      else closed (qrc c) = 1 \<and>
           holders c + (if chan_closed (output_ch (qrc c)) then 1 else 0) = 1)"

text \<open>
  The number of terminal values among everything written. A code is a string like any
  other channel item, so the count tells codes from terminal values only when no code of
  a QR event is one of the three special strings; \<open>action_ok\<close> says so of a dispatched
  event, \<open>pcs_ok\<close> of the codes the emitters still hold and of the \<^verbatim>\<open>outputType\<close> of the
  handler invocations.
\<close>

fun h_ok :: "hpc \<Rightarrow> bool" where
  "h_ok (H_close_stop t) = (\<not> IsQR t)"
| "h_ok (H_cas t) = (\<not> IsQR t)"
| "h_ok (H_send t) = (\<not> IsQR t)"
| "h_ok pc = True"

fun e_ok :: "epc \<Rightarrow> bool" where
  "e_ok (E_loop codes timeout) = list_all IsQR codes"
| "e_ok (E_wait codes timeout) = list_all IsQR codes"
| "e_ok pc = True"

fun action_ok :: "action \<Rightarrow> bool" where
  "action_ok (Dispatch (QR codes timeout)) = list_all IsQR codes"
| "action_ok a = True"

definition terminals :: "'jid config \<Rightarrow> nat" where
  "terminals c = count_where (\<lambda>v. \<not> IsQR v) (written c)"

definition pcs_ok :: "'jid config \<Rightarrow> bool" where
  "pcs_ok c \<longleftrightarrow> list_all h_ok (handlers c) \<and> list_all e_ok (emitters c)"

text \<open>
  Every terminal value written belongs to a goroutine that has sent and not yet closed,
  or to the one that closed the channel.
\<close>

definition terminals_counted :: "'jid config \<Rightarrow> bool" where
  "terminals_counted c \<longleftrightarrow>
     terminals c = count_where h_sent (handlers c) + count_where e_sent (emitters c) +
       (if chan_closed (output_ch (qrc c)) then 1 else 0)"

text \<open>
  \<open>late_code_closed\<close>: as \<open>late_code\<close> up to the timer firing, but the \<^verbatim>\<open>PairSuccess\<close> call
  runs to its end before the emitter goes on.
\<close>

definition late_code_closed :: "action list" where
  "late_code_closed =
     [Dispatch (QR [''1@ABC'', ''2@DEF''] 20), Emit 0, Receive, Elapse 0, Dispatch PairSuccess] @
     replicate 5 (Handle 0)"

text \<open>Two containers: one whose \<^verbatim>\<open>DeleteDevice\<close> fails, one whose \<^verbatim>\<open>DeleteDevice\<close> succeeds.\<close>

definition failing_container :: "unit Device \<Rightarrow> string option \<times> unit Device" where
  "failing_container d = (Some ''database is locked'', d)"

definition working_container :: "unit Device \<Rightarrow> string option \<times> unit Device" where
  "working_container d = (None, d)"

section \<open>Evaluation\<close>

lemmas chan_defs = chan_send_def chan_close_def chan_recv_def CompareAndSwapUint32_def

lemmas relay0_defs =
  relay0_def unpaired_client_def make_chan_def handleEvent_call_def RemoveEventHandler_def
  Disconnect_def QRChannelSuccess_def QRChannelTimeout_def QRChannelErrUnexpectedEvent_def

lemma relay_of_unpaired_client: "relay_of unpaired_client = Some relay0"
  by (simp add: relay_of_def GetQRChannel_def IsConnected_def AddEventHandler_def Let_def
      relay0_defs)

lemma open_relay0: "open_relay relay0"
  by (simp add: open_relay_def relay0_defs)

section \<open>The entry point\<close>

text \<open>
  C3. \<^verbatim>\<open>GetQRChannel\<close> returns \<^verbatim>\<open>ErrQRAlreadyConnected\<close> when the client reports a connection
  and \<^verbatim>\<open>ErrQRStoreContainsID\<close> when it does not but the store holds an identity; in both cases
  the channel is nil, the client is left as it was (nothing is registered) and no relay is
  built. Otherwise the channel is not nil, the error is nil, and exactly one new handler,
  the relay's, has been appended to the registered handlers.
\<close>

theorem GetQRChannel_preconditions:
  "(IsConnected client \<longrightarrow>
      GetQRChannel client = ((None, Some ErrQRAlreadyConnected), client, None)) \<and>
   (\<not> IsConnected client \<and> ID (Store client) \<noteq> None \<longrightarrow>
      GetQRChannel client = ((None, Some ErrQRStoreContainsID), client, None)) \<and>
   (\<not> IsConnected client \<and> ID (Store client) = None \<longrightarrow>
      (\<exists>ch client' q. GetQRChannel client = ((Some ch, None), client', Some q) \<and>
         ch = make_chan 7 \<and> output_ch q = ch \<and>
         eventHandlers client' = eventHandlers client @ [handlerID q] \<and>
         closed q = 0 \<and> \<not> chan_closed (stopQRs q)))"
  by (simp add: GetQRChannel_def AddEventHandler_def Let_def make_chan_def)

theorem GetQRChannel_preconditions_witness:
  "IsConnected (unpaired_client\<lparr>connected := True\<rparr>) \<and>
   GetQRChannel (unpaired_client\<lparr>connected := True\<rparr>) =
     ((None, Some ErrQRAlreadyConnected), unpaired_client\<lparr>connected := True\<rparr>, None) \<and>
   \<not> IsConnected (unpaired_client\<lparr>Store := (Store unpaired_client)\<lparr>ID := Some ()\<rparr>\<rparr>) \<and>
   ID (Store (unpaired_client\<lparr>Store := (Store unpaired_client)\<lparr>ID := Some ()\<rparr>\<rparr>)) \<noteq> None \<and>
   GetQRChannel (unpaired_client\<lparr>Store := (Store unpaired_client)\<lparr>ID := Some ()\<rparr>\<rparr>) =
     ((None, Some ErrQRStoreContainsID),
      unpaired_client\<lparr>Store := (Store unpaired_client)\<lparr>ID := Some ()\<rparr>\<rparr>, None) \<and>
   \<not> IsConnected unpaired_client \<and> ID (Store unpaired_client) = None \<and>
   (\<exists>client' q. GetQRChannel unpaired_client = ((Some (make_chan 7), None), client', Some q) \<and>
      eventHandlers client' = eventHandlers unpaired_client @ [handlerID q])"
proof -
  have a: "IsConnected (unpaired_client\<lparr>connected := True\<rparr>)"
    by (simp add: IsConnected_def)
  have b: "\<not> IsConnected (unpaired_client\<lparr>Store := (Store unpaired_client)\<lparr>ID := Some ()\<rparr>\<rparr>) \<and>
           ID (Store (unpaired_client\<lparr>Store := (Store unpaired_client)\<lparr>ID := Some ()\<rparr>\<rparr>)) \<noteq> None"
    by (simp add: IsConnected_def unpaired_client_def)
  have c: "\<not> IsConnected unpaired_client \<and> ID (Store unpaired_client) = None"
    by (simp add: IsConnected_def unpaired_client_def)
  show ?thesis
    using a b c
      GetQRChannel_preconditions [of "unpaired_client\<lparr>connected := True\<rparr>"]
      GetQRChannel_preconditions
        [of "unpaired_client\<lparr>Store := (Store unpaired_client)\<lparr>ID := Some ()\<rparr>\<rparr>"]
      GetQRChannel_preconditions [of unpaired_client]
    by auto
qed

text \<open>
  C9. When the client reports a connection and the store holds an identity as well,
  \<^verbatim>\<open>GetQRChannel\<close> returns \<^verbatim>\<open>ErrQRAlreadyConnected\<close>: the connection is tested first.
\<close>

theorem GetQRChannel_connected_first:
  assumes "IsConnected client" and "ID (Store client) \<noteq> None"
  shows "GetQRChannel client = ((None, Some ErrQRAlreadyConnected), client, None)"
  using assms by (simp add: GetQRChannel_def)

theorem GetQRChannel_connected_first_witness:
  "IsConnected (unpaired_client\<lparr>Store := (Store unpaired_client)\<lparr>ID := Some ()\<rparr>, connected := True\<rparr>) \<and>
   ID (Store (unpaired_client\<lparr>Store := (Store unpaired_client)\<lparr>ID := Some ()\<rparr>, connected := True\<rparr>))
     \<noteq> None \<and>
   snd (fst (GetQRChannel
     (unpaired_client\<lparr>Store := (Store unpaired_client)\<lparr>ID := Some ()\<rparr>, connected := True\<rparr>))) =
     Some ErrQRAlreadyConnected"
proof -
  let ?cl = "unpaired_client\<lparr>Store := (Store unpaired_client)\<lparr>ID := Some ()\<rparr>, connected := True\<rparr>"
  have a: "IsConnected ?cl" by (simp add: IsConnected_def)
  have b: "ID (Store ?cl) \<noteq> None" by simp
  show ?thesis using a b GetQRChannel_connected_first [OF a b] by simp
qed

section \<open>The event handler\<close>

text \<open>
  C4. On an open relay, a \<^verbatim>\<open>handleEvent\<close> call that runs to its end writes the terminal value
  of the event's kind: \<^verbatim>\<open>PairSuccess\<close> writes "success", \<^verbatim>\<open>Disconnected\<close> writes "timeout",
  \<^verbatim>\<open>Connected\<close> and \<^verbatim>\<open>ConnectFailure\<close> write "err-unexpected-state"; each then closes the
  channel and removes the handler. A QR event starts an emitter on the event's codes and
  changes nothing else; any other event changes nothing.
\<close>

theorem handleEvent_by_kind:
  assumes "open_relay c"
  shows "handleEvent PairSuccess c = terminated QRChannelSuccess c \<and>
         handleEvent Disconnected c = terminated QRChannelTimeout c \<and>
         handleEvent Connected c = terminated QRChannelErrUnexpectedEvent c \<and>
         handleEvent ConnectFailure c = terminated QRChannelErrUnexpectedEvent c \<and>
         handleEvent (QR codes timeout) c = c\<lparr>emitters := emitters c @ [E_loop codes timeout]\<rparr> \<and>
         handleEvent OtherEvent c = c"
  using assms
  by (simp add: open_relay_def handleEvent_def handleEvent_call_def chan_defs numeral_eq_Suc)

theorem handleEvent_by_kind_witness:
  "open_relay relay0 \<and>
   written (handleEvent PairSuccess relay0) = [''success''] \<and>
   written (handleEvent Disconnected relay0) = [''timeout''] \<and>
   written (handleEvent Connected relay0) = [''err-unexpected-state''] \<and>
   written (handleEvent ConnectFailure relay0) = [''err-unexpected-state''] \<and>
   written (handleEvent (QR [''1@ABC'', ''2@DEF''] 20) relay0) = [] \<and>
   emitters (handleEvent (QR [''1@ABC'', ''2@DEF''] 20) relay0) = [E_loop [''1@ABC'', ''2@DEF''] 20] \<and>
   handleEvent OtherEvent relay0 = relay0"
  using open_relay0 handleEvent_by_kind [OF open_relay0, of "[''1@ABC'', ''2@DEF'']" 20]
  by (simp add: written_def relay0_defs)

section \<open>The emitter\<close>

text \<open>
  C5. An emitter started on N codes, on a relay whose closed word is 0 and whose output
  channel is open and empty, with the reader taking every value and every wait ended by
  its timer (no stop signal): when it has returned, the reader has received exactly the N
  codes in their order and then "timeout", the channel is closed, the closed word is 1 and
  one \<^verbatim>\<open>Disconnect\<close> call has been made.
\<close>

theorem emitQRs_drained:
  assumes "panicked c = None" and "i < length (emitters c)"
    and "emitters c ! i = E_loop codes timeout"
    and "closed (qrc c) = 0" and "\<not> chan_closed (output_ch (qrc c))"
    and "chan_buf (output_ch (qrc c)) = []" and "0 < chan_cap (output_ch (qrc c))"
  shows "exec (drained_run i codes) c =
           c\<lparr>qrc := (qrc c)\<lparr>closed := 1,
                            output_ch := (output_ch (qrc c))\<lparr>chan_closed := True\<rparr>\<rparr>,
             cli := Disconnect (cli c),
             emitters := (emitters c)[i := E_return],
             received := received c @ codes @ [QRChannelTimeout]\<rparr>"
  using assms
proof (induction codes arbitrary: c)
  case Nil
  then show ?case by (simp add: chan_defs)
next
  case (Cons code codes)
  let ?c' = "c\<lparr>emitters := (emitters c)[i := E_loop codes timeout],
                received := received c @ [code]\<rparr>"
  have three: "exec [Emit i, Receive, Elapse i] c = ?c'"
    using Cons.prems by (simp add: chan_defs)
  have "exec (drained_run i (code # codes)) c = exec (drained_run i codes) ?c'"
    using three by simp
  also have "\<dots> = ?c'\<lparr>qrc := (qrc ?c')\<lparr>closed := 1,
                            output_ch := (output_ch (qrc ?c'))\<lparr>chan_closed := True\<rparr>\<rparr>,
             cli := Disconnect (cli ?c'),
             emitters := (emitters ?c')[i := E_return],
             received := received ?c' @ codes @ [QRChannelTimeout]\<rparr>"
    by (rule Cons.IH) (use Cons.prems in simp_all)
  finally show ?case by simp
qed

theorem emitQRs_drained_witness:
  "received (exec (drained_run 0 [''1@ABC'', ''2@DEF''])
      (handleEvent_call (QR [''1@ABC'', ''2@DEF''] 20) relay0)) = [''1@ABC'', ''2@DEF'', ''timeout''] \<and>
   chan_closed (output_ch (qrc (exec (drained_run 0 [''1@ABC'', ''2@DEF''])
      (handleEvent_call (QR [''1@ABC'', ''2@DEF''] 20) relay0)))) \<and>
   disconnectCalls (cli (exec (drained_run 0 [''1@ABC'', ''2@DEF''])
      (handleEvent_call (QR [''1@ABC'', ''2@DEF''] 20) relay0))) = 1"
proof -
  let ?c = "handleEvent_call (QR [''1@ABC'', ''2@DEF''] 20) relay0"
  have pre: "panicked ?c = None" "0 < length (emitters ?c)"
    "emitters ?c ! 0 = E_loop [''1@ABC'', ''2@DEF''] 20"
    "closed (qrc ?c) = 0" "\<not> chan_closed (output_ch (qrc ?c))"
    "chan_buf (output_ch (qrc ?c)) = []" "0 < chan_cap (output_ch (qrc ?c))"
    by (simp_all add: relay0_defs)
  show ?thesis
    unfolding emitQRs_drained [OF pre] by (simp add: relay0_defs)
qed

text \<open>
  C6. An emitter at the head of its loop with no codes left. If the closed word is 0 and
  the output channel is open with room, its four steps set the word to 1, write "timeout"
  and nothing else, close the channel and call \<^verbatim>\<open>Disconnect\<close> once. If the closed word is not
  0 it returns and changes nothing.
\<close>

theorem emitQRs_empty:
  assumes "panicked c = None" and "i < length (emitters c)"
    and "emitters c ! i = E_loop [] timeout"
  shows "(closed (qrc c) = 0 \<and> \<not> chan_closed (output_ch (qrc c)) \<and>
          length (chan_buf (output_ch (qrc c))) < chan_cap (output_ch (qrc c)) \<longrightarrow>
            exec (replicate 4 (Emit i)) c =
              c\<lparr>qrc := (qrc c)\<lparr>closed := 1,
                               output_ch := (output_ch (qrc c))
                                 \<lparr>chan_buf := chan_buf (output_ch (qrc c)) @ [QRChannelTimeout],
                                  chan_closed := True\<rparr>\<rparr>,
                cli := Disconnect (cli c),
                emitters := (emitters c)[i := E_return]\<rparr>) \<and>
         (closed (qrc c) \<noteq> 0 \<longrightarrow>
            step (Emit i) c = c\<lparr>emitters := (emitters c)[i := E_return]\<rparr>)"
  using assms by (simp add: chan_defs numeral_eq_Suc)

theorem emitQRs_empty_witness:
  "written (exec (replicate 4 (Emit 0)) (handleEvent_call (QR [] 20) relay0)) = [''timeout''] \<and>
   chan_closed (output_ch (qrc (exec (replicate 4 (Emit 0))
     (handleEvent_call (QR [] 20) relay0)))) \<and>
   disconnectCalls (cli (exec (replicate 4 (Emit 0)) (handleEvent_call (QR [] 20) relay0))) = 1 \<and>
   written (step (Emit 0) (handleEvent_call (QR [] 20) (relay0\<lparr>qrc := (qrc relay0)\<lparr>closed := 1\<rparr>\<rparr>)))
     = []"
proof -
  let ?c = "handleEvent_call (QR [] 20) relay0"
  let ?d = "handleEvent_call (QR [] 20) (relay0\<lparr>qrc := (qrc relay0)\<lparr>closed := 1\<rparr>\<rparr>)"
  have c1: "panicked ?c = None" "0 < length (emitters ?c)" "emitters ?c ! 0 = E_loop [] 20"
    by (simp_all add: relay0_defs)
  have d1: "panicked ?d = None" "0 < length (emitters ?d)" "emitters ?d ! 0 = E_loop [] 20"
    by (simp_all add: relay0_defs)
  have c2: "closed (qrc ?c) = 0 \<and> \<not> chan_closed (output_ch (qrc ?c)) \<and>
            length (chan_buf (output_ch (qrc ?c))) < chan_cap (output_ch (qrc ?c))"
    by (simp add: relay0_defs)
  have d2: "closed (qrc ?d) \<noteq> 0"
    by (simp add: relay0_defs)
  have won: "exec (replicate 4 (Emit 0)) ?c =
      ?c\<lparr>qrc := (qrc ?c)\<lparr>closed := 1,
                       output_ch := (output_ch (qrc ?c))
                         \<lparr>chan_buf := chan_buf (output_ch (qrc ?c)) @ [QRChannelTimeout],
                          chan_closed := True\<rparr>\<rparr>,
         cli := Disconnect (cli ?c),
         emitters := (emitters ?c)[0 := E_return]\<rparr>"
    by (rule mp [OF conjunct1 [OF emitQRs_empty [OF c1]] c2])
  have lost: "step (Emit 0) ?d = ?d\<lparr>emitters := (emitters ?d)[0 := E_return]\<rparr>"
    by (rule mp [OF conjunct2 [OF emitQRs_empty [OF d1]] d2])
  show ?thesis
    unfolding won lost by (simp add: written_def relay0_defs)
qed

text \<open>
  C8. An emitter at the head of its loop with a code to send, the output channel open and
  its buffer full: the step returns from \<^verbatim>\<open>emitQRs\<close> and nothing else changes: nothing is
  written, the closed word, the output channel and the stop channel are as they were.
\<close>

theorem emitQRs_full_buffer:
  assumes "panicked c = None" and "i < length (emitters c)"
    and "emitters c ! i = E_loop (nextCode # codes) timeout"
    and "\<not> chan_closed (output_ch (qrc c))"
    and "chan_cap (output_ch (qrc c)) \<le> length (chan_buf (output_ch (qrc c)))"
  shows "step (Emit i) c = c\<lparr>emitters := (emitters c)[i := E_return]\<rparr>"
  using assms by (simp add: chan_defs)

theorem emitQRs_full_buffer_witness:
  "chan_cap (output_ch (qrc relay_full)) \<le> length (chan_buf (output_ch (qrc relay_full))) \<and>
   step (Emit 0) relay_full = relay_full\<lparr>emitters := [E_return]\<rparr>"
proof -
  have pre: "panicked relay_full = None" "0 < length (emitters relay_full)"
    "emitters relay_full ! 0 = E_loop (''8@H'' # [''9@I'']) 20"
    "\<not> chan_closed (output_ch (qrc relay_full))"
    "chan_cap (output_ch (qrc relay_full)) \<le> length (chan_buf (output_ch (qrc relay_full)))"
    by (simp_all add: relay_full_def relay0_defs)
  show ?thesis
    unfolding emitQRs_full_buffer [OF pre] using pre(5) by (simp add: relay_full_def)
qed

section \<open>The device store\<close>

text \<open>
  C10. If the container's \<^verbatim>\<open>DeleteDevice\<close> returns an error, \<^verbatim>\<open>Delete\<close> returns that error and
  writes nothing to the device, so the \<^verbatim>\<open>ID\<close> is the one it had (the container is taken
  not to change it); if it returns nil, \<^verbatim>\<open>Delete\<close> sets the \<^verbatim>\<open>ID\<close> to nil and returns nil.
\<close>

theorem Delete_atomic:
  assumes "DeleteDevice device = (err, device')" and "ID device' = ID device"
  shows "(err \<noteq> None \<longrightarrow> Delete DeleteDevice device = (err, device') \<and>
            ID (snd (Delete DeleteDevice device)) = ID device) \<and>
         (err = None \<longrightarrow> Delete DeleteDevice device = (None, device'\<lparr>ID := None\<rparr>) \<and>
            ID (snd (Delete DeleteDevice device)) = None)"
  using assms by (auto simp: Delete_def)

theorem Delete_atomic_witness:
  "Delete failing_container (Store unpaired_client\<lparr>ID := Some ()\<rparr>) =
     (Some ''database is locked'', Store unpaired_client\<lparr>ID := Some ()\<rparr>) \<and>
   Delete working_container (Store unpaired_client\<lparr>ID := Some ()\<rparr>) =
     (None, Store unpaired_client\<lparr>ID := None\<rparr>)"
proof -
  let ?dev = "Store unpaired_client\<lparr>ID := Some ()\<rparr>"
  have a: "failing_container ?dev = (Some ''database is locked'', ?dev)"
    by (simp add: failing_container_def)
  have b: "working_container ?dev = (None, ?dev)"
    by (simp add: working_container_def)
  have i: "ID ?dev = ID ?dev" by simp
  show ?thesis
    using Delete_atomic [of failing_container, OF a i]
      Delete_atomic [of working_container, OF b i]
    by simp
qed

section \<open>Termination under concurrency\<close>

lemma emit_step_keeps_handler:
  "eventHandlers (cli (snd (emit_step pc c))) = eventHandlers (cli c) \<and>
   removeCalls (cli (snd (emit_step pc c))) = removeCalls (cli c)"
  by (cases "(pc, c)" rule: emit_step.cases)
    (auto simp: chan_defs Disconnect_def split: list.splits)

subsection \<open>What holds in every run\<close>

lemma count_where_append [simp]:
  "count_where P (xs @ [x]) = count_where P xs + (if P x then 1 else 0)"
  by (simp add: count_where_def)

lemma count_where_update:
  "i < length xs \<Longrightarrow>
     count_where P (xs[i := y]) + (if P (xs ! i) then 1 else 0) =
     count_where P xs + (if P y then 1 else 0)"
  unfolding count_where_def
proof (induction xs arbitrary: i)
  case Nil
  then show ?case by simp
next
  case (Cons x xs)
  then show ?case by (cases i) auto
qed

lemma single_closer_handle:
  assumes "single_closer c" and "i < length (handlers c)" and "panicked c = None"
  shows "single_closer (step (Handle i) c)"
proof -
  have u: "\<And>pc. count_where h_holds ((handlers c)[i := pc]) + (if h_holds (handlers c ! i) then 1 else 0) =
     count_where h_holds (handlers c) + (if h_holds pc then 1 else 0)"
    using assms(2) by (rule count_where_update)
  show ?thesis
  proof (cases "handlers c ! i")
    case (H_close_stop t)
    then show ?thesis using assms u [of "H_cas t"] u [of "H_close_stop t"]
      by (simp add: single_closer_def holders_def chan_defs split: if_splits)
  next
    case (H_cas t)
    then show ?thesis using assms u [of "H_send t"] u [of "H_remove"]
      by (simp add: single_closer_def holders_def chan_defs split: if_splits)
  next
    case (H_send t)
    then show ?thesis using assms u [of "H_send t"] u [of "H_close_output"]
      by (simp add: single_closer_def holders_def chan_defs split: if_splits)
  next
    case H_close_output
    then show ?thesis using assms u [of "H_close_output"] u [of "H_remove"]
      by (simp add: single_closer_def holders_def chan_defs split: if_splits)
  next
    case H_remove
    then show ?thesis using assms u [of "H_return"]
      by (simp add: single_closer_def holders_def chan_defs split: if_splits)
  next
    case H_return
    then show ?thesis using assms u [of "H_return"]
      by (simp add: single_closer_def holders_def chan_defs split: if_splits)
  qed
qed

lemma single_closer_emit:
  assumes "single_closer c" and "i < length (emitters c)" and "panicked c = None"
  shows "single_closer (step (Emit i) c)"
proof -
  have u: "\<And>pc. count_where e_holds ((emitters c)[i := pc]) + (if e_holds (emitters c ! i) then 1 else 0) =
     count_where e_holds (emitters c) + (if e_holds pc then 1 else 0)"
    using assms(2) by (rule count_where_update)
  show ?thesis
  proof (cases "emitters c ! i")
    case (E_loop codes timeout)
    show ?thesis
    proof (cases codes)
      case Nil
      then show ?thesis using E_loop assms u [of "E_send_timeout"] u [of "E_return"]
        by (simp add: single_closer_def holders_def chan_defs split: if_splits)
    next
      case (Cons code rest)
      then show ?thesis
        using E_loop assms u [of "E_wait rest timeout"] u [of "E_return"]
          u [of "E_loop (code # rest) timeout"]
        by (simp add: single_closer_def holders_def chan_defs split: if_splits)
    qed
  next
    case E_send_timeout
    then show ?thesis using assms u [of "E_send_timeout"] u [of "E_close_output"]
      by (simp add: single_closer_def holders_def chan_defs split: if_splits)
  next
    case E_close_output
    then show ?thesis using assms u [of "E_close_output"] u [of "E_disconnect"]
      by (simp add: single_closer_def holders_def chan_defs split: if_splits)
  next
    case E_disconnect
    then show ?thesis using assms u [of "E_return"]
      by (simp add: single_closer_def holders_def chan_defs split: if_splits)
  next
    case (E_wait codes timeout)
    then show ?thesis using assms u [of "E_return"] u [of "E_wait codes timeout"]
      by (simp add: single_closer_def holders_def chan_defs split: if_splits list.splits)
  next
    case E_return
    then show ?thesis using assms u [of "E_return"]
      by (simp add: single_closer_def holders_def chan_defs split: if_splits)
  qed
qed

lemma single_closer_elapse:
  assumes "single_closer c" and "i < length (emitters c)" and "panicked c = None"
  shows "single_closer (step (Elapse i) c)"
proof -
  have u: "count_where e_holds ((emitters c)[i := emit_elapse (emitters c ! i)]) + (if e_holds (emitters c ! i) then 1 else 0) =
     count_where e_holds (emitters c) + (if e_holds (emit_elapse (emitters c ! i)) then 1 else 0)"
    using assms(2) by (rule count_where_update)
  have "e_holds (emit_elapse (emitters c ! i)) = e_holds (emitters c ! i)"
    by (cases "emitters c ! i") simp_all
  then show ?thesis using assms u
    by (simp add: single_closer_def holders_def split: if_splits)
qed

lemma single_closer_step: "single_closer c \<Longrightarrow> single_closer (step a c)"
proof (cases a)
  case (Dispatch evt)
  assume "single_closer c"
  then show ?thesis using Dispatch
    by (cases evt) (auto simp add: single_closer_def holders_def handleEvent_call_def split: if_splits)
next
  case (Handle i)
  assume "single_closer c"
  then show ?thesis using Handle single_closer_handle [of c i]
    by (cases "panicked c \<noteq> None \<or> length (handlers c) \<le> i") auto
next
  case (Emit i)
  assume "single_closer c"
  then show ?thesis using Emit single_closer_emit [of c i]
    by (cases "panicked c \<noteq> None \<or> length (emitters c) \<le> i") auto
next
  case (Elapse i)
  assume "single_closer c"
  then show ?thesis using Elapse single_closer_elapse [of c i]
    by (cases "panicked c \<noteq> None \<or> length (emitters c) \<le> i") auto
next
  case Receive
  assume "single_closer c"
  then show ?thesis using Receive
    by (auto simp add: single_closer_def holders_def chan_defs split: list.splits if_splits)
qed

lemma single_closer_exec: "single_closer c \<Longrightarrow> single_closer (exec as c)"
  by (induction as arbitrary: c) (simp_all add: single_closer_step)

lemma count_where_simps [simp]:
  "count_where P [] = 0"
  "count_where P (x # xs) = (if P x then 1 else 0) + count_where P xs"
  "count_where P (xs @ ys) = count_where P xs + count_where P ys"
  by (simp_all add: count_where_def)

lemma count_where_mono:
  "(\<And>x. P x \<Longrightarrow> Q x) \<Longrightarrow> count_where P xs \<le> count_where Q xs"
  by (induction xs) auto

lemma list_all_update: "list_all P xs \<Longrightarrow> P y \<Longrightarrow> list_all P (xs[i := y])"
  by (induction xs arbitrary: i) (auto split: nat.splits)

lemma list_all_nth: "list_all P xs \<Longrightarrow> i < length xs \<Longrightarrow> P (xs ! i)"
  by (simp add: list_all_length)

lemma terminal_items [simp]:
  "\<not> IsQR QRChannelSuccess" "\<not> IsQR QRChannelTimeout" "\<not> IsQR QRChannelErrUnexpectedEvent"
  by (simp_all add: IsQR_def)

lemma pcs_ok_step:
  assumes "pcs_ok c" and "action_ok a"
  shows "pcs_ok (step a c)"
proof (cases a)
  case (Dispatch evt)
  then show ?thesis using assms
    by (cases evt) (auto simp add: pcs_ok_def handleEvent_call_def)
next
  case (Handle i)
  show ?thesis
  proof (cases "panicked c \<noteq> None \<or> length (handlers c) \<le> i")
    case True
    then show ?thesis using Handle assms by auto
  next
    case False
    then have "h_ok (handlers c ! i)"
      using assms(1) by (simp add: pcs_ok_def list_all_nth)
    then have "h_ok (fst (handle_step (handlers c ! i) c))"
      and "emitters (snd (handle_step (handlers c ! i) c)) = emitters c"
      by (cases "handlers c ! i"; simp add: chan_defs split: if_splits)+
    then show ?thesis using False Handle assms(1)
      by (auto simp add: pcs_ok_def list_all_update split: prod.splits)
  qed
next
  case (Emit i)
  show ?thesis
  proof (cases "panicked c \<noteq> None \<or> length (emitters c) \<le> i")
    case True
    then show ?thesis using Emit assms by auto
  next
    case False
    then have "e_ok (emitters c ! i)"
      using assms(1) by (simp add: pcs_ok_def list_all_nth)
    then have "e_ok (fst (emit_step (emitters c ! i) c))"
      and "handlers (snd (emit_step (emitters c ! i) c)) = handlers c"
      by (cases "(emitters c ! i, c)" rule: emit_step.cases;
          simp add: chan_defs split: if_splits list.splits)+
    then show ?thesis using False Emit assms(1)
      by (auto simp add: pcs_ok_def list_all_update split: prod.splits)
  qed
next
  case (Elapse i)
  show ?thesis
  proof (cases "panicked c \<noteq> None \<or> length (emitters c) \<le> i")
    case True
    then show ?thesis using Elapse assms by auto
  next
    case False
    then have "e_ok (emitters c ! i)"
      using assms(1) by (simp add: pcs_ok_def list_all_nth)
    then have "e_ok (emit_elapse (emitters c ! i))"
      by (cases "emitters c ! i") simp_all
    then show ?thesis using False Elapse assms(1)
      by (simp add: pcs_ok_def list_all_update)
  qed
next
  case Receive
  then show ?thesis using assms
    by (auto simp add: pcs_ok_def chan_defs split: list.splits)
qed

lemma terminals_counted_handle:
  assumes "terminals_counted c" and "h_ok (handlers c ! i)"
    and "i < length (handlers c)" and "panicked c = None"
  shows "terminals_counted (step (Handle i) c)"
proof -
  have u: "\<And>pc. count_where h_sent ((handlers c)[i := pc]) + (if h_sent (handlers c ! i) then 1 else 0) =
     count_where h_sent (handlers c) + (if h_sent pc then 1 else 0)"
    using assms(3) by (rule count_where_update)
  show ?thesis
  proof (cases "handlers c ! i")
    case (H_close_stop t)
    then show ?thesis using assms u [of "H_cas t"] u [of "H_close_stop t"]
      by (simp add: terminals_counted_def terminals_def written_def chan_defs split: if_splits)
  next
    case (H_cas t)
    then show ?thesis using assms u [of "H_send t"] u [of "H_remove"]
      by (simp add: terminals_counted_def terminals_def written_def chan_defs split: if_splits)
  next
    case (H_send t)
    then show ?thesis using assms u [of "H_send t"] u [of "H_close_output"]
      by (simp add: terminals_counted_def terminals_def written_def chan_defs split: if_splits)
  next
    case H_close_output
    then show ?thesis using assms u [of "H_close_output"] u [of "H_remove"]
      by (simp add: terminals_counted_def terminals_def written_def chan_defs split: if_splits)
  next
    case H_remove
    then show ?thesis using assms u [of "H_return"]
      by (simp add: terminals_counted_def terminals_def written_def chan_defs split: if_splits)
  next
    case H_return
    then show ?thesis using assms u [of "H_return"]
      by (simp add: terminals_counted_def terminals_def written_def chan_defs split: if_splits)
  qed
qed

lemma terminals_counted_emit:
  assumes "terminals_counted c" and "e_ok (emitters c ! i)"
    and "i < length (emitters c)" and "panicked c = None"
  shows "terminals_counted (step (Emit i) c)"
proof -
  have u: "\<And>pc. count_where e_sent ((emitters c)[i := pc]) + (if e_sent (emitters c ! i) then 1 else 0) =
     count_where e_sent (emitters c) + (if e_sent pc then 1 else 0)"
    using assms(3) by (rule count_where_update)
  show ?thesis
  proof (cases "emitters c ! i")
    case (E_loop codes timeout)
    show ?thesis
    proof (cases codes)
      case Nil
      then show ?thesis using E_loop assms u [of "E_send_timeout"] u [of "E_return"]
        by (simp add: terminals_counted_def terminals_def written_def chan_defs split: if_splits)
    next
      case (Cons code rest)
      then show ?thesis
        using E_loop assms u [of "E_wait rest timeout"] u [of "E_return"]
          u [of "E_loop (code # rest) timeout"]
        by (simp add: terminals_counted_def terminals_def written_def chan_defs split: if_splits)
    qed
  next
    case E_send_timeout
    then show ?thesis using assms u [of "E_send_timeout"] u [of "E_close_output"]
      by (simp add: terminals_counted_def terminals_def written_def chan_defs split: if_splits)
  next
    case E_close_output
    then show ?thesis using assms u [of "E_close_output"] u [of "E_disconnect"]
      by (simp add: terminals_counted_def terminals_def written_def chan_defs split: if_splits)
  next
    case E_disconnect
    then show ?thesis using assms u [of "E_return"]
      by (simp add: terminals_counted_def terminals_def written_def chan_defs split: if_splits)
  next
    case (E_wait codes timeout)
    then show ?thesis using assms u [of "E_return"] u [of "E_wait codes timeout"]
      by (simp add: terminals_counted_def terminals_def written_def chan_defs
          split: if_splits list.splits)
  next
    case E_return
    then show ?thesis using assms u [of "E_return"]
      by (simp add: terminals_counted_def terminals_def written_def chan_defs split: if_splits)
  qed
qed

lemma terminals_counted_elapse:
  assumes "terminals_counted c" and "i < length (emitters c)" and "panicked c = None"
  shows "terminals_counted (step (Elapse i) c)"
proof -
  have u: "count_where e_sent ((emitters c)[i := emit_elapse (emitters c ! i)]) + (if e_sent (emitters c ! i) then 1 else 0) =
     count_where e_sent (emitters c) + (if e_sent (emit_elapse (emitters c ! i)) then 1 else 0)"
    using assms(2) by (rule count_where_update)
  have "e_sent (emit_elapse (emitters c ! i)) = e_sent (emitters c ! i)"
    by (cases "emitters c ! i") simp_all
  then show ?thesis using assms u
    by (simp add: terminals_counted_def terminals_def written_def split: if_splits)
qed

lemma terminals_counted_step:
  assumes "terminals_counted c" and "pcs_ok c"
  shows "terminals_counted (step a c)"
proof (cases a)
  case (Dispatch evt)
  then show ?thesis using assms(1)
    by (cases evt)
      (auto simp add: terminals_counted_def terminals_def written_def handleEvent_call_def)
next
  case (Handle i)
  then show ?thesis using assms terminals_counted_handle [of c i]
    by (cases "panicked c \<noteq> None \<or> length (handlers c) \<le> i")
      (auto simp add: pcs_ok_def list_all_nth)
next
  case (Emit i)
  then show ?thesis using assms terminals_counted_emit [of c i]
    by (cases "panicked c \<noteq> None \<or> length (emitters c) \<le> i")
      (auto simp add: pcs_ok_def list_all_nth)
next
  case (Elapse i)
  then show ?thesis using assms terminals_counted_elapse [of c i]
    by (cases "panicked c \<noteq> None \<or> length (emitters c) \<le> i") auto
next
  case Receive
  then show ?thesis using assms(1)
    by (auto simp add: terminals_counted_def terminals_def written_def chan_defs
        split: list.splits)
qed

lemma invariants_exec:
  assumes "single_closer c" and "terminals_counted c" and "pcs_ok c"
    and "list_all action_ok as"
  shows "single_closer (exec as c) \<and> terminals_counted (exec as c) \<and> pcs_ok (exec as c)"
  using assms
  by (induction as arbitrary: c)
    (simp_all add: single_closer_step terminals_counted_step pcs_ok_step)

lemma at_most_one_terminal:
  assumes "single_closer c" and "terminals_counted c"
  shows "terminals c \<le> 1"
proof -
  have "count_where h_sent (handlers c) \<le> count_where h_holds (handlers c)"
    by (rule count_where_mono) (erule h_sent.elims, simp_all)
  moreover have "count_where e_sent (emitters c) \<le> count_where e_holds (emitters c)"
    by (rule count_where_mono) (erule e_sent.elims, simp_all)
  ultimately show ?thesis
    using assms
    by (simp add: single_closer_def terminals_counted_def holders_def split: if_splits)
qed

lemma relay_of_invariants:
  assumes "relay_of client = Some c"
  shows "single_closer c \<and> terminals_counted c \<and> pcs_ok c"
  using assms
  by (auto simp add: relay_of_def GetQRChannel_def AddEventHandler_def Let_def make_chan_def
      single_closer_def holders_def terminals_counted_def terminals_def written_def pcs_ok_def
      split: if_splits)

text \<open>
  In every run from the relay that \<^verbatim>\<open>GetQRChannel\<close> returns, whatever the interleaving, as
  long as no dispatched code is one of the three special strings: at most one terminal
  value has been written, and at most one goroutine, a winner of the compare-and-swap, is
  at the terminal send or the close of the output channel, none once it is closed.
\<close>

lemma one_terminal_one_closer:
  assumes "relay_of client = Some c" and "list_all action_ok as"
  shows "terminals (exec as c) \<le> 1 \<and> single_closer (exec as c)"
  using relay_of_invariants [OF assms(1)] invariants_exec [of c as] assms(2)
    at_most_one_terminal [of "exec as c"]
  by simp

subsection \<open>What does not\<close>

lemma late_code_on_closed_channel:
  "panicked (exec late_code_closed relay0) = None \<and>
   written (exec late_code_closed relay0) = [''1@ABC'', QRChannelSuccess] \<and>
   chan_closed (output_ch (qrc (exec late_code_closed relay0))) \<and>
   emitters (exec late_code_closed relay0) = [E_loop [''2@DEF''] 20] \<and>
   panicked (step (Emit 0) (exec late_code_closed relay0)) = Some SendOnClosedChannel"
  by (simp add: late_code_closed_def written_def relay0_defs chan_defs numeral_eq_Suc)

text \<open>
  C1. The run \<open>late_code\<close> ends with every goroutine returned, no panic and the channel
  closed, and the reader has received the first code, then "success", then the second
  code: the terminal value is not the last value written.
\<close>

theorem late_code_after_terminal_value:
  "received (exec late_code relay0) = [''1@ABC'', QRChannelSuccess, ''2@DEF''] \<and>
   chan_closed (output_ch (qrc (exec late_code relay0))) \<and>
   chan_buf (output_ch (qrc (exec late_code relay0))) = [] \<and>
   handlers (exec late_code relay0) = [H_return] \<and>
   emitters (exec late_code relay0) = [E_return] \<and>
   panicked (exec late_code relay0) = None"
  by (simp add: late_code_def relay0_defs chan_defs)

text \<open>
  C2. After \<open>two_terminal_events\<close> the first call has written "success", closed the channel
  and returned without a panic; the first step of the second call, \<^verbatim>\<open>close(qrc.stopQRs)\<close> on
  the channel the first call has closed, panics.
\<close>

theorem second_terminal_event_panics:
  "panicked (exec two_terminal_events relay0) = None \<and>
   written (exec two_terminal_events relay0) = [QRChannelSuccess] \<and>
   chan_closed (output_ch (qrc (exec two_terminal_events relay0))) \<and>
   handlers (exec two_terminal_events relay0) = [H_return, H_close_stop QRChannelTimeout] \<and>
   panicked (step (Handle 1) (exec two_terminal_events relay0)) = Some CloseOfClosedChannel"
  by (simp add: two_terminal_events_def written_def relay0_defs chan_defs numeral_eq_Suc)

text \<open>
  C7. After \<open>codes_run_out\<close> the emitter has written the code and "timeout", closed the
  channel, asked for the disconnect and returned; no goroutine of the relay is left, no
  \<^verbatim>\<open>RemoveEventHandler\<close> call has been made and the handler is still registered.
\<close>

theorem codes_run_out_keeps_handler:
  "received (exec codes_run_out relay0) = [''1@ABC'', QRChannelTimeout] \<and>
   chan_closed (output_ch (qrc (exec codes_run_out relay0))) \<and>
   disconnectCalls (cli (exec codes_run_out relay0)) = 1 \<and>
   emitters (exec codes_run_out relay0) = [E_return] \<and>
   handlers (exec codes_run_out relay0) = [] \<and>
   removeCalls (cli (exec codes_run_out relay0)) = [] \<and>
   handlerID (qrc (exec codes_run_out relay0)) \<in> set (eventHandlers (cli (exec codes_run_out relay0)))"
  by (simp add: codes_run_out_def relay0_defs chan_defs)

end
